theory Spec2Isabelle
  imports Complex_Main
begin

section \<open>Tensors, matrices and failures\<close>

text \<open>
  The geometry routines of \<^verbatim>\<open>lingvo/tasks/car/geometry.py\<close> work on float tensors.
  Floats are idealised as reals, except in the point-in-box tests, whose verdicts
  depend on rounding and which are modelled in single precision. A tensor of shape
  \<open>[..., b]\<close> is held in the form the code itself reshapes it to, \<open>[-1, b]\<close>: a list of
  rows; the leading dimensions are restored unchanged by the closing reshape and
  carry no information of their own.
  A failed TensorFlow op (shape mismatch, failed assertion) is a value of \<open>error\<close>.
\<close>

datatype error = InvalidArgument | AssertionFailed | ValueError

type_synonym vec = "real list"
type_synonym matrix = "real list list"

definition dot :: "vec \<Rightarrow> vec \<Rightarrow> real" where
  "dot u v = sum_list (map2 (*) u v)"

definition n_cols :: "matrix \<Rightarrow> nat" where
  "n_cols m = (case m of [] \<Rightarrow> 0 | r # _ \<Rightarrow> length r)"

text \<open>\<^verbatim>\<open>np.array(...).T\<close>: the list of columns.\<close>

definition mat_T :: "matrix \<Rightarrow> matrix" where
  "mat_T m = map (\<lambda>j. map (\<lambda>r. r ! j) m) [0..<n_cols m]"

text \<open>\<^verbatim>\<open>tf.matmul(a, b)\<close> for \<open>a : [n, k]\<close> and \<open>b : [k, c]\<close>; the inner dimensions must agree.\<close>

definition matmul :: "matrix \<Rightarrow> matrix \<Rightarrow> error + matrix" where
  "matmul a b =
     (if list_all (\<lambda>r. length r = length b) a
      then Inr (map (\<lambda>r. map (dot r) (mat_T b)) a)
      else Inl InvalidArgument)"

text \<open>
  \<^verbatim>\<open>_BroadcastMatmul(x, y)\<close>: \<open>x\<close> reshaped to \<open>[-1, b]\<close>, multiplied by \<open>y\<close>, reshaped to
  the leading shape of \<open>x\<close> followed by the columns of \<open>y\<close>.
\<close>

definition BroadcastMatmul :: "matrix \<Rightarrow> matrix \<Rightarrow> error + matrix" where
  "BroadcastMatmul x y = matmul x y"

subsection \<open>2-D box encodings\<close>

definition XYWHToBBoxes :: "matrix \<Rightarrow> error + matrix" where
  "XYWHToBBoxes xywh =
     BroadcastMatmul xywh (mat_T
       [[0, 1, 0, - (1/2)],
        [1, 0, - (1/2), 0],
        [0, 1, 0, 1/2],
        [1, 0, 1/2, 0]])"

definition BBoxesToXYWH :: "matrix \<Rightarrow> error + matrix" where
  "BBoxesToXYWH bboxes =
     BroadcastMatmul bboxes (mat_T
       [[0, 1/2, 0, 1/2],
        [1/2, 0, 1/2, 0],
        [0, - 1, 0, 1],
        [- 1, 0, 1, 0]])"

subsection \<open>Coordinate transform\<close>

definition bind_err :: "error + 'a \<Rightarrow> ('a \<Rightarrow> error + 'b) \<Rightarrow> error + 'b" where
  "bind_err r f = (case r of Inl e \<Rightarrow> Inl e | Inr x \<Rightarrow> f x)"

text \<open>
  \<^verbatim>\<open>points + translation\<close> with TensorFlow's broadcasting along the last dimension:
  a row of the same width is added entry by entry, a row of width one is spread over
  the vector, any other width is a shape error.
\<close>

definition add_broadcast :: "matrix \<Rightarrow> vec \<Rightarrow> error + matrix" where
  "add_broadcast points t =
     (if list_all (\<lambda>p. length p = length t \<or> length p = 1) points
      then Inr (map (\<lambda>p. if length p = length t then map2 (+) p t
                          else map (\<lambda>c. hd p + c) t) points)
      else Inl InvalidArgument)"

definition UnitX :: "real \<Rightarrow> matrix" where
  "UnitX angle = [[1, 0, 0],
                  [0, cos angle, - sin angle],
                  [0, sin angle, cos angle]]"

definition UnitY :: "real \<Rightarrow> matrix" where
  "UnitY angle = [[cos angle, 0, sin angle],
                  [0, 1, 0],
                  [- sin angle, 0, cos angle]]"

definition UnitZ :: "real \<Rightarrow> matrix" where
  "UnitZ angle = [[cos angle, - sin angle, 0],
                  [sin angle, cos angle, 0],
                  [0, 0, 1]]"

text \<open>
  \<^verbatim>\<open>CoordinateTransform(points, pose)\<close>. Reading \<^verbatim>\<open>pose[5]\<close> from a shorter pose is
  an error raised while the graph is built.
\<close>

definition CoordinateTransform :: "matrix \<Rightarrow> vec \<Rightarrow> error + matrix" where
  "CoordinateTransform points pose =
     (if length pose < 6 then Inl ValueError
      else
        let translate_x = pose ! 0;
            translate_y = pose ! 1;
            translate_z = pose ! 2;
            translation = [translate_x, translate_y, translate_z]
        in bind_err (add_broadcast points translation) (\<lambda>translated_points.
           let yaw = pose ! 3;
               roll = pose ! 4;
               pitch = pose ! 5
           in bind_err (matmul (UnitZ yaw) (UnitX roll)) (\<lambda>zx.
              bind_err (matmul zx (UnitY pitch)) (\<lambda>rotation_matrix.
              BroadcastMatmul translated_points rotation_matrix))))"

text \<open>
  The transform in the words of the specification, for comparison with the code:
  matrices as functions of row and column index, the three elementary rotations,
  their product in the order Z, X, Y, and the translated point as a row vector
  multiplied from the left.
\<close>

type_synonym fmatrix = "nat \<Rightarrow> nat \<Rightarrow> real"

definition fmat_mul :: "fmatrix \<Rightarrow> fmatrix \<Rightarrow> fmatrix" where
  "fmat_mul A B = (\<lambda>i j. \<Sum>k<3. A i k * B k j)"

definition row_times :: "(nat \<Rightarrow> real) \<Rightarrow> fmatrix \<Rightarrow> nat \<Rightarrow> real" where
  "row_times v A = (\<lambda>j. \<Sum>i<3. v i * A i j)"

definition spec_Rz :: "real \<Rightarrow> fmatrix" where
  "spec_Rz a = (\<lambda>i j.
     if i = 0 \<and> j = 0 then cos a else if i = 0 \<and> j = 1 then - sin a
     else if i = 1 \<and> j = 0 then sin a else if i = 1 \<and> j = 1 then cos a
     else if i = 2 \<and> j = 2 then 1 else 0)"

definition spec_Rx :: "real \<Rightarrow> fmatrix" where
  "spec_Rx a = (\<lambda>i j.
     if i = 0 \<and> j = 0 then 1
     else if i = 1 \<and> j = 1 then cos a else if i = 1 \<and> j = 2 then - sin a
     else if i = 2 \<and> j = 1 then sin a else if i = 2 \<and> j = 2 then cos a else 0)"

definition spec_Ry :: "real \<Rightarrow> fmatrix" where
  "spec_Ry a = (\<lambda>i j.
     if i = 0 \<and> j = 0 then cos a else if i = 0 \<and> j = 2 then sin a
     else if i = 1 \<and> j = 1 then 1
     else if i = 2 \<and> j = 0 then - sin a else if i = 2 \<and> j = 2 then cos a else 0)"

definition spec_CoordinateTransform :: "vec \<Rightarrow> vec \<Rightarrow> vec" where
  "spec_CoordinateTransform p pose =
     (let translated = (\<lambda>i. p ! i + pose ! i);
          R = fmat_mul (fmat_mul (spec_Rz (pose ! 3)) (spec_Rx (pose ! 4))) (spec_Ry (pose ! 5))
      in map (row_times translated R) [0, 1, 2])"

subsection \<open>Spherical coordinates\<close>

text \<open>
  A float operation that yields NaN where the real function is undefined is a partial
  function: \<open>None\<close> stands for NaN. Division by zero, the square root of a negative
  number and the arc cosine outside \<open>[-1, 1]\<close> are undefined. \<^verbatim>\<open>tf.atan2\<close> is defined
  everywhere, with value 0 at the origin.
\<close>

definition fl_sqrt :: "real \<Rightarrow> real option" where
  "fl_sqrt x = (if x < 0 then None else Some (sqrt x))"

definition fl_div :: "real \<Rightarrow> real \<Rightarrow> real option" where
  "fl_div a b = (if b = 0 then None else Some (a / b))"

definition fl_acos :: "real \<Rightarrow> real option" where
  "fl_acos x = (if x < - 1 \<or> 1 < x then None else Some (arccos x))"

definition atan2 :: "real \<Rightarrow> real \<Rightarrow> real" where
  "atan2 y x =
     (if 0 < x then arctan (y / x)
      else if x < 0 \<and> 0 \<le> y then arctan (y / x) + pi
      else if x < 0 \<and> y < 0 then arctan (y / x) - pi
      else if 0 < y then pi / 2
      else if y < 0 then - (pi / 2)
      else 0)"

text \<open>
  \<^verbatim>\<open>SphericalCoordinatesTransform(points_xyz)\<close>, row by row: \<open>dist\<close> sums the squares
  over the whole last axis, \<open>theta\<close> and \<open>phi\<close> read the entries 2, 1 and 0.
\<close>

definition SphericalCoordinatesTransform :: "matrix \<Rightarrow> error + real option list list" where
  "SphericalCoordinatesTransform points_xyz =
     (if list_all (\<lambda>p. 3 \<le> length p) points_xyz
      then Inr (map (\<lambda>p.
        let dist = fl_sqrt (sum_list (map (\<lambda>c. c * c) p));
            theta = Option.bind dist (\<lambda>d.
                      Option.bind (fl_div (p ! 2) (max d (1 / 10 ^ 7))) fl_acos);
            phi = atan2 (p ! 1) (p ! 0)
        in [dist, theta, Some phi]) points_xyz)
      else Inl ValueError)"

subsection \<open>Single-precision floats\<close>















subsection \<open>Points within boxes\<close>

type_synonym point2 = "real \<times> real"




















definition orient :: "point2 \<Rightarrow> point2 \<Rightarrow> point2 \<Rightarrow> real" where
  "orient a b c =
     (fst b - fst a) * (snd c - snd a) - (snd b - snd a) * (fst c - fst a)"









section \<open>Range images\<close>

text \<open>
  \<^verbatim>\<open>_XYZFromRangeImage\<close> of \<^verbatim>\<open>lingvo/tasks/car/waymo/waymo_open_input_generator.py\<close>.
  Nested lists stand for dense tensors: \<open>lidar_image\<close> is \<open>[H, W, C]\<close>, the mask \<open>[H, W]\<close>,
  \<open>pixel_pose\<close> is \<open>[H, W, 4, 4]\<close>, \<open>extrinsics\<close> and \<open>frame_pose\<close> are \<open>[4, 4]\<close>. The casts to
  \<^verbatim>\<open>float32\<close> are the identity on reals. \<^verbatim>\<open>tf.matrix_inverse\<close> belongs to TensorFlow
  and is a parameter; it fails on a matrix that has no inverse.
\<close>

text \<open>\<open>m[0:3, 0:3]\<close> and \<open>m[0:3, 3]\<close> of a homogeneous transform.\<close>

definition rotation_part :: "matrix \<Rightarrow> matrix" where
  "rotation_part m = map (take 3) (take 3 m)"

definition translation_part :: "matrix \<Rightarrow> vec" where
  "translation_part m = map (\<lambda>r. r ! 3) (take 3 m)"

text \<open>
  \<^verbatim>\<open>einsum('ij,j->i', m, v)\<close>, which is also one row of
  \<^verbatim>\<open>matmul(points, m, transpose_b=True)\<close>.
\<close>

definition mat_vec :: "matrix \<Rightarrow> vec \<Rightarrow> vec" where
  "mat_vec m v = map (\<lambda>row. dot row v) m"

definition transform_point :: "matrix \<Rightarrow> vec \<Rightarrow> vec \<Rightarrow> vec" where
  "transform_point rotation translation p = map2 (+) (mat_vec rotation p) translation"

text \<open>
  The first part of \<^verbatim>\<open>_XYZFromRangeImage\<close>, up to the comment \<^verbatim>\<open>GBR uses per pixel pose\<close>:
  the cartesian points of the range image after the extrinsics transform.
\<close>

definition lidar_image_points ::
  "real list list list \<Rightarrow> bool list list \<Rightarrow> matrix \<Rightarrow> vec \<Rightarrow> error + vec list list" where
  "lidar_image_points lidar_image lidar_image_mask extrinsics inclinations =
     (let height = length lidar_image;
          width = (case lidar_image of [] \<Rightarrow> 0 | row # _ \<Rightarrow> length row);
          inclinations = rev inclinations;
          az_correction = atan2 (extrinsics ! 1 ! 0) (extrinsics ! 0 ! 0);
          ratios = map (\<lambda>j. (real (width - j) - 1 / 2) / real width) [0..<width];
          azimuth = map (\<lambda>r. (r * 2 - 1) * pi - az_correction) ratios
      in if length inclinations \<noteq> height then Inl AssertionFailed
         else if \<not> (length lidar_image_mask = height
                   \<and> list_all (\<lambda>row. length row = width) lidar_image_mask)
         then Inl InvalidArgument
         else
           let lidar_image_range =
                 map (\<lambda>i. map (\<lambda>j. if lidar_image_mask ! i ! j then lidar_image ! i ! j ! 0 else 0)
                   [0..<width]) [0..<height];
               points =
                 map (\<lambda>i. map (\<lambda>j.
                   [cos (azimuth ! j) * cos (inclinations ! i) * lidar_image_range ! i ! j,
                    sin (azimuth ! j) * cos (inclinations ! i) * lidar_image_range ! i ! j,
                    sin (inclinations ! i) * lidar_image_range ! i ! j])
                   [0..<width]) [0..<height];
               rotation = rotation_part extrinsics;
               translation = translation_part extrinsics
           in Inr (map (map (transform_point rotation translation)) points))"

definition XYZFromRangeImage ::
  "(matrix \<Rightarrow> error + matrix) \<Rightarrow> real list list list \<Rightarrow> bool list list \<Rightarrow> matrix \<Rightarrow> vec
     \<Rightarrow> matrix list list option \<Rightarrow> matrix option \<Rightarrow> error + vec list list" where
  "XYZFromRangeImage matrix_inverse lidar_image lidar_image_mask extrinsics inclinations
       pixel_pose frame_pose =
     bind_err (lidar_image_points lidar_image lidar_image_mask extrinsics inclinations)
       (\<lambda>points.
     case pixel_pose of
       None \<Rightarrow> Inr points
     | Some pixel_pose \<Rightarrow>
         if map length pixel_pose \<noteq> map length points then Inl InvalidArgument
         else
           let points =
                 map2 (map2 (\<lambda>pose p.
                     transform_point (rotation_part pose) (translation_part pose) p))
                   pixel_pose points
           in (case frame_pose of
                 None \<Rightarrow> Inl ValueError
               | Some frame_pose \<Rightarrow>
                   bind_err (matrix_inverse frame_pose) (\<lambda>world_to_vehicle.
                   Inr (map (map (transform_point (rotation_part world_to_vehicle)
                                    (translation_part world_to_vehicle))) points))))"

section \<open>Detector outputs\<close>

text \<open>
  \<^verbatim>\<open>lingvo/tasks/car/point_detector.py\<close>. A dense tensor is its static shape and its
  entries by index; floats are idealised as reals. \<^verbatim>\<open>DecodeWithNMS\<close>,
  \<^verbatim>\<open>_BBoxesAndLogits\<close> (abstract in the base class), the output decoder's
  \<^verbatim>\<open>ProcessOutputs\<close> and the global step are not among the sources and are
  parameters of the model. A \<^verbatim>\<open>NestedMap\<close> of outputs is a map from field names.
\<close>

record tensor =
  shape :: "nat list"
  elems :: "nat list \<Rightarrow> real"

datatype output_value = TensorValue tensor | StepValue int

record params =
  num_classes :: nat
  max_nms_boxes :: nat
  nms_iou_threshold :: "real list"
  nms_score_threshold :: "real list"
  visualization_classification_threshold :: real
  use_oriented_per_class_nms :: bool

type_synonym nms_fn =
  "tensor \<Rightarrow> tensor \<Rightarrow> real list \<Rightarrow> real list \<Rightarrow> nat \<Rightarrow> bool
     \<Rightarrow> error + (tensor \<times> tensor \<times> tensor)"

definition sigmoid :: "real \<Rightarrow> real" where
  "sigmoid x = 1 / (1 + exp (- x))"

definition tensor_map :: "(real \<Rightarrow> real) \<Rightarrow> tensor \<Rightarrow> tensor" where
  "tensor_map f t = \<lparr>shape = shape t, elems = (\<lambda>i. f (elems t i))\<rparr>"

text \<open>
  \<^verbatim>\<open>a *= b\<close> on tensors of one shape, the shape \<^verbatim>\<open>DecodeWithNMS\<close> documents for scores
  and mask; operands of different shapes are a shape error.
\<close>

definition tensor_mul :: "tensor \<Rightarrow> tensor \<Rightarrow> error + tensor" where
  "tensor_mul a b =
     (if shape a = shape b
      then Inr \<lparr>shape = shape a, elems = (\<lambda>i. elems a i * elems b i)\<rparr>
      else Inl InvalidArgument)"

text \<open>The scores multiplied entry by entry with the validity mask.\<close>

definition masked_scores :: "tensor \<Rightarrow> tensor \<Rightarrow> tensor" where
  "masked_scores s m = \<lparr>shape = shape s, elems = (\<lambda>i. elems s i * elems m i)\<rparr>"

text \<open>
  Modelled from the spec: \<^verbatim>\<open>py_utils.HasShape\<close> is not among the sources; a shape that
  disagrees with the declared one is fatal.
\<close>

definition HasShape :: "tensor \<Rightarrow> nat list \<Rightarrow> error + tensor" where
  "HasShape t expected = (if shape t = expected then Inr t else Inl AssertionFailed)"

text \<open>\<^verbatim>\<open>py_utils.GetShape(t, 3)\<close>: the three dimensions of a tensor of rank 3.\<close>

definition GetShape3 :: "tensor \<Rightarrow> error + (nat \<times> nat \<times> nat)" where
  "GetShape3 t =
     (case shape t of [a, b, c] \<Rightarrow> Inr (a, b, c) | _ \<Rightarrow> Inl AssertionFailed)"

definition Inference ::
  "params \<Rightarrow> ('i \<Rightarrow> error + (tensor \<times> tensor)) \<Rightarrow> nms_fn \<Rightarrow> 'i
     \<Rightarrow> error + (string \<rightharpoonup> tensor)" where
  "Inference p BBoxesAndLogits DecodeWithNMS input_placeholders =
     bind_err (BBoxesAndLogits input_placeholders) (\<lambda>(predicted_bboxes, classification_logits).
     let classification_scores = tensor_map sigmoid classification_logits
     in bind_err (DecodeWithNMS predicted_bboxes classification_scores
          (nms_iou_threshold p) (nms_score_threshold p) (max_nms_boxes p)
          (use_oriented_per_class_nms p))
        (\<lambda>(per_cls_bboxes, per_cls_bbox_scores, per_cls_valid_mask).
     bind_err (tensor_mul per_cls_bbox_scores per_cls_valid_mask) (\<lambda>per_cls_bbox_scores.
     Inr [''per_class_predicted_bboxes'' \<mapsto> per_cls_bboxes,
          ''per_class_predicted_bbox_scores'' \<mapsto> per_cls_bbox_scores,
          ''per_class_valid_mask'' \<mapsto> per_cls_valid_mask])))"

definition Decode ::
  "params \<Rightarrow> ('i \<Rightarrow> error + (tensor \<times> tensor)) \<Rightarrow> nms_fn
     \<Rightarrow> ('i \<Rightarrow> (string \<rightharpoonup> tensor) \<Rightarrow> (string \<rightharpoonup> output_value)) \<Rightarrow> int \<Rightarrow> 'i
     \<Rightarrow> error + (string \<rightharpoonup> output_value)" where
  "Decode p BBoxesAndLogits DecodeWithNMS ProcessOutputs global_step input_batch =
     bind_err (BBoxesAndLogits input_batch) (\<lambda>(predicted_bboxes, classification_logits).
     bind_err (GetShape3 predicted_bboxes) (\<lambda>(batch_size, num_bboxes, _).
     bind_err (HasShape classification_logits [batch_size, num_bboxes, num_classes p])
        (\<lambda>classification_logits.
     let classification_scores = tensor_map sigmoid classification_logits
     in bind_err (DecodeWithNMS predicted_bboxes classification_scores
          (nms_iou_threshold p) (nms_score_threshold p) (max_nms_boxes p)
          (use_oriented_per_class_nms p))
        (\<lambda>(per_cls_bboxes, per_cls_bbox_scores, per_cls_valid_mask).
     bind_err (tensor_mul per_cls_bbox_scores per_cls_valid_mask) (\<lambda>per_cls_bbox_scores.
     bind_err (HasShape per_cls_bbox_scores [batch_size, num_classes p, max_nms_boxes p])
        (\<lambda>visualization_weights.
     let visualization_weights =
           \<lparr>shape = shape visualization_weights,
            elems = (\<lambda>i. if visualization_classification_threshold p
                               \<le> elems visualization_weights i
                          then elems visualization_weights i else 0)\<rparr>;
         model_outputs =
           [''per_class_predicted_bboxes'' \<mapsto> per_cls_bboxes,
            ''per_class_predicted_bbox_scores'' \<mapsto> per_cls_bbox_scores,
            ''per_class_valid_mask'' \<mapsto> per_cls_valid_mask];
         decoder_outputs =
           [''per_class_predicted_bboxes'' \<mapsto> TensorValue per_cls_bboxes,
            ''per_class_predicted_bbox_scores'' \<mapsto> TensorValue per_cls_bbox_scores,
            ''per_class_valid_mask'' \<mapsto> TensorValue per_cls_valid_mask,
            ''visualization_weights'' \<mapsto> TensorValue visualization_weights];
         decoder_outputs = decoder_outputs ++ ProcessOutputs input_batch model_outputs
     in Inr (decoder_outputs(''global_step'' \<mapsto> StepValue global_step))))))))"

section \<open>Writing the decoded records\<close>

text \<open>
  \<^verbatim>\<open>DecodeFinalize\<close>. The file system is a map from paths to the records a TFRecord
  file holds. \<^verbatim>\<open>tf.io.TFRecordWriter(path)\<close> creates the file at \<open>path\<close>, empty,
  replacing what was there; \<^verbatim>\<open>write\<close> appends one record. \<open>decode_out\<close> is \<open>None\<close>
  for Python's \<^verbatim>\<open>None\<close>; \<^verbatim>\<open>None\<close> and the empty list are falsy.
\<close>

type_synonym 'r filesystem = "string \<rightharpoonup> 'r list"

definition TFRecordWriter :: "string \<Rightarrow> 'r filesystem \<Rightarrow> 'r filesystem" where
  "TFRecordWriter path fs = fs(path \<mapsto> [])"

definition writer_write :: "string \<Rightarrow> 'r \<Rightarrow> 'r filesystem \<Rightarrow> 'r filesystem" where
  "writer_write path v fs = (case fs path of None \<Rightarrow> fs | Some recs \<Rightarrow> fs(path \<mapsto> recs @ [v]))"

record ('k, 'r) decode_finalize_args =
  decode_out_path :: string
  decode_out :: "('k \<times> 'r) list option"

definition DecodeFinalize :: "('k, 'r) decode_finalize_args \<Rightarrow> 'r filesystem \<Rightarrow> 'r filesystem" where
  "DecodeFinalize decode_finalize_args fs =
     (case decode_out decode_finalize_args of
        None \<Rightarrow> fs
      | Some [] \<Rightarrow> fs
      | Some out \<Rightarrow>
          fold (\<lambda>(_, v) f. writer_write (decode_out_path decode_finalize_args) v f) out
            (TFRecordWriter (decode_out_path decode_finalize_args) fs))"

section \<open>The bucketing batcher\<close>

text \<open>
  \<^verbatim>\<open>generic_input.GenericInput\<close> and the record batcher behind it are not among the
  sources: only its test \<^verbatim>\<open>generic_input_op_test.py\<close> and the extractor's call in
  \<^verbatim>\<open>base_extractor.py\<close> are. The batcher is modelled from the specification; the
  extractor's side is modelled from its source.
\<close>

text \<open>
  Modelled from the spec: the routing of a processed record by its bucket key, missing
  with \<^verbatim>\<open>GenericInput\<close>. A key \<open>\<le> 0\<close> drops the record; otherwise the key selects the
  smallest configured bucket whose upper bound is \<open>\<ge>\<close> the key; if no upper bound
  accommodates it, the record is dropped. The upper bounds are strictly increasing, so
  the smallest such bucket is the first one.
\<close>

fun first_fit :: "int list \<Rightarrow> int \<Rightarrow> nat option" where
  "first_fit [] key = None"
| "first_fit (ub # ubs) key =
     (if key \<le> ub then Some 0 else map_option Suc (first_fit ubs key))"

text \<open>
  Modelled from the spec: the drop signal of a key \<open>\<le> 0\<close>, missing with \<^verbatim>\<open>GenericInput\<close>,
  in front of the choice of the bucket.
\<close>

definition route :: "int list \<Rightarrow> int \<Rightarrow> nat option" where
  "route bucket_upper_bound key =
     (if key \<le> 0 then None else first_fit bucket_upper_bound key)"

record batcher_config =
  bucket_upper_bound :: "int list"
  bucket_batch_limit :: "nat list"

text \<open>
  Modelled from the spec: the per-bucket state machine of the batcher. A routed record
  is appended to its bucket; a bucket that reaches its batch limit flushes its
  records as one batch and starts again empty. The state is the records pending in
  each bucket and the batches emitted so far, each with the bucket it came from.
\<close>

type_synonym 'r batcher_state = "('r \<times> int) list list \<times> (nat \<times> ('r \<times> int) list) list"

text \<open>
  Modelled from the spec: the batcher's start, missing with \<^verbatim>\<open>GenericInput\<close>: every
  bucket empty, no batch emitted.
\<close>

definition batcher_init :: "batcher_config \<Rightarrow> 'r batcher_state" where
  "batcher_init cfg = (replicate (length (bucket_upper_bound cfg)) [], [])"

text \<open>
  Modelled from the spec: one processed record entering the batcher, missing with
  \<^verbatim>\<open>GenericInput\<close>: dropped, accumulated, or completing a batch that is flushed.
\<close>

definition batcher_step :: "batcher_config \<Rightarrow> 'r \<times> int \<Rightarrow> 'r batcher_state \<Rightarrow> 'r batcher_state" where
  "batcher_step cfg rec st =
     (case route (bucket_upper_bound cfg) (snd rec) of
        None \<Rightarrow> st
      | Some b \<Rightarrow>
          let accumulated = fst st ! b @ [rec]
          in if bucket_batch_limit cfg ! b \<le> length accumulated
             then ((fst st)[b := []], snd st @ [(b, accumulated)])
             else ((fst st)[b := accumulated], snd st))"

text \<open>
  Modelled from the spec: the batcher fed a stream of processed records, missing with
  \<^verbatim>\<open>GenericInput\<close>, and the batches it has emitted.
\<close>

definition batcher_run :: "batcher_config \<Rightarrow> ('r \<times> int) list \<Rightarrow> 'r batcher_state" where
  "batcher_run cfg records = fold (batcher_step cfg) records (batcher_init cfg)"

definition output_batches :: "batcher_config \<Rightarrow> ('r \<times> int) list \<Rightarrow> (nat \<times> ('r \<times> int) list) list" where
  "output_batches cfg records = snd (batcher_run cfg records)"

text \<open>
  The invariant of the state machine: every record pending in a bucket or emitted in a
  batch of it is one of the records \<open>S\<close> and was routed to that bucket.
\<close>

definition routed :: "batcher_config \<Rightarrow> ('r \<times> int) set \<Rightarrow> nat \<Rightarrow> 'r \<times> int \<Rightarrow> bool" where
  "routed cfg S b rec \<longleftrightarrow> rec \<in> S \<and> route (bucket_upper_bound cfg) (snd rec) = Some b"

definition batcher_inv :: "batcher_config \<Rightarrow> ('r \<times> int) set \<Rightarrow> 'r batcher_state \<Rightarrow> bool" where
  "batcher_inv cfg S st \<longleftrightarrow>
     length (fst st) = length (bucket_upper_bound cfg)
     \<and> (\<forall>b<length (fst st). \<forall>rec\<in>set (fst st ! b). routed cfg S b rec)
     \<and> (\<forall>(b, recs)\<in>set (snd st). \<forall>rec\<in>set recs. routed cfg S b rec)"

text \<open>
  Modelled from the spec: the flush of a bucket. An instance is the list of its output
  fields, a field the list of its entries along its dynamic padding dimension. For
  every field the flush computes the maximum extent among the accumulated instances
  and pads every instance to it with the field's configured constant.
\<close>

text \<open>
  Modelled from the spec: the maximum extent of field \<open>k\<close> among the accumulated instances,
  missing with \<^verbatim>\<open>GenericInput\<close>.
\<close>

definition max_extent :: "nat \<Rightarrow> 'a list list list \<Rightarrow> nat" where
  "max_extent k instances = fold (\<lambda>inst n. max (length (inst ! k)) n) instances 0"

text \<open>
  Modelled from the spec: padding one field to extent \<open>n\<close> with a constant, missing with
  \<^verbatim>\<open>GenericInput\<close>.
\<close>

definition pad_to :: "nat \<Rightarrow> 'a \<Rightarrow> 'a list \<Rightarrow> 'a list" where
  "pad_to n c xs = xs @ replicate (n - length xs) c"

text \<open>
  Modelled from the spec: the flush of the accumulated instances of a bucket, missing with
  \<^verbatim>\<open>GenericInput\<close>: every field of every instance padded to the batch's maximum extent.
\<close>

definition flush :: "'a list \<Rightarrow> 'a list list list \<Rightarrow> 'a list list list" where
  "flush dynamic_padding_constants instances =
     map (\<lambda>inst. map (\<lambda>k. pad_to (max_extent k instances) (dynamic_padding_constants ! k) (inst ! k))
            [0..<length inst]) instances"

subsection \<open>The extractor's use of the batcher\<close>

text \<open>
  \<^verbatim>\<open>lingvo/tasks/car/base_extractor.py\<close>: the bucket key of an example is the maximum
  of the keys its extractors' filters return; \<^verbatim>\<open>_DataSourceFromFilePattern\<close> configures
  the batcher with the single upper bound \<^verbatim>\<open>BUCKET_UPPER_BOUND - 1\<close>.
\<close>

definition BUCKET_UPPER_BOUND :: int where
  "BUCKET_UPPER_BOUND = 9999"

definition extractor_bucket_upper_bound :: "int list" where
  "extractor_bucket_upper_bound = [BUCKET_UPPER_BOUND - 1]"

fun reduce_max :: "int list \<Rightarrow> int" where
  "reduce_max [] = 0"
| "reduce_max (b # bs) = fold max bs b"

text \<open>
  \<^verbatim>\<open>ExtractUsingExtractors\<close>, after parsing: the preprocessors run only on an example
  whose key is below \<^verbatim>\<open>BUCKET_UPPER_BOUND\<close>; the others get the null output. The
  extractors are never none (the label extractor is required), so the maximum is over a
  non-empty list.
\<close>

definition ExtractUsingExtractors :: "int list \<Rightarrow> 'x \<Rightarrow> ('x \<Rightarrow> 'x) \<Rightarrow> 'x \<Rightarrow> int \<times> 'x" where
  "ExtractUsingExtractors buckets extracted Preprocess NullLike =
     (let max_bucket = reduce_max buckets;
          final_output = (if max_bucket < BUCKET_UPPER_BOUND then Preprocess extracted else NullLike)
      in (max_bucket, final_output))"

section \<open>Properties\<close>

subsection \<open>Round trip of the box encodings\<close>

lemma length4_cases:
  assumes "length (x :: 'a list) = 4"
  obtains a b c d where "x = [a, b, c, d]"
proof -
  from assms obtain a x1 where x: "x = a # x1" and "length x1 = 3"
    by (cases x) auto
  then obtain b x2 where x1: "x1 = b # x2" and "length x2 = 2"
    by (cases x1) auto
  then obtain c x3 where x2: "x2 = c # x3" and "length x3 = 1"
    by (cases x2) auto
  then obtain d where "x3 = [d]"
    by (cases x3) auto
  with x x1 x2 show thesis using that by simp
qed

lemma upt_4: "[0..<4] = [0, Suc 0, 2, 3]"
  by (simp add: upt_rec)

lemma length_mat_T: "length (mat_T m) = n_cols m"
  by (simp add: mat_T_def)

lemma XYWHToBBoxes_rows:
  assumes "list_all (\<lambda>x. length x = 4) xs"
  shows "XYWHToBBoxes xs =
    Inr (map (\<lambda>x. [x ! 1 - x ! 3 / 2, x ! 0 - x ! 2 / 2, x ! 1 + x ! 3 / 2, x ! 0 + x ! 2 / 2]) xs)"
proof -
  have row: "map (dot x) (mat_T (mat_T [[0, 1, 0, - (1/2)], [1, 0, - (1/2), 0], [0, 1, 0, 1/2], [1, 0, 1/2, 0]]))
      = [x ! 1 - x ! 3 / 2, x ! 0 - x ! 2 / 2, x ! 1 + x ! 3 / 2, x ! 0 + x ! 2 / 2]"
    if "length x = 4" for x :: vec
  proof -
    from that obtain a b c d where "x = [a, b, c, d]" by (rule length4_cases)
    then show ?thesis
      by (simp add: mat_T_def n_cols_def dot_def upt_4)
  qed
  from assms show ?thesis
    unfolding XYWHToBBoxes_def BroadcastMatmul_def matmul_def
    by (auto simp: list_all_iff row length_mat_T n_cols_def)
qed

lemma BBoxesToXYWH_rows:
  assumes "list_all (\<lambda>x. length x = 4) bs"
  shows "BBoxesToXYWH bs =
    Inr (map (\<lambda>b. [b ! 1 / 2 + b ! 3 / 2, b ! 0 / 2 + b ! 2 / 2, b ! 3 - b ! 1, b ! 2 - b ! 0]) bs)"
proof -
  have row: "map (dot x) (mat_T (mat_T [[0, 1/2, 0, 1/2], [1/2, 0, 1/2, 0], [0, - 1, 0, 1], [- 1, 0, 1, 0]]))
      = [x ! 1 / 2 + x ! 3 / 2, x ! 0 / 2 + x ! 2 / 2, x ! 3 - x ! 1, x ! 2 - x ! 0]"
    if "length x = 4" for x :: vec
  proof -
    from that obtain a b c d where "x = [a, b, c, d]" by (rule length4_cases)
    then show ?thesis
      by (simp add: mat_T_def n_cols_def dot_def upt_4)
  qed
  from assms show ?thesis
    unfolding BBoxesToXYWH_def BroadcastMatmul_def matmul_def
    by (auto simp: list_all_iff row length_mat_T n_cols_def)
qed

text \<open>
  Claim C3. For every tensor of 4-vectors \<open>(centroid x, centroid y, width, height)\<close>,
  \<^verbatim>\<open>XYWHToBBoxes\<close> succeeds and \<^verbatim>\<open>BBoxesToXYWH\<close> maps its result back to the input:
  the two fixed matrix multiplications are mutually inverse on this round trip
  (exactly so over the reals, which is what the floats approximate).
\<close>

theorem xywh_bboxes_roundtrip:
  assumes "list_all (\<lambda>x. length x = 4) xs"
  shows "\<exists>bs. XYWHToBBoxes xs = Inr bs \<and> BBoxesToXYWH bs = Inr xs"
proof -
  let ?corners = "\<lambda>x :: vec. [x ! 1 - x ! 3 / 2, x ! 0 - x ! 2 / 2, x ! 1 + x ! 3 / 2, x ! 0 + x ! 2 / 2]"
  let ?centroid = "\<lambda>b :: vec. [b ! 1 / 2 + b ! 3 / 2, b ! 0 / 2 + b ! 2 / 2, b ! 3 - b ! 1, b ! 2 - b ! 0]"
  have fwd: "XYWHToBBoxes xs = Inr (map ?corners xs)"
    using assms by (rule XYWHToBBoxes_rows)
  have len: "list_all (\<lambda>x. length x = 4) (map ?corners xs)"
    by (simp add: list_all_iff)
  have "map ?centroid (map ?corners xs) = xs"
    unfolding map_map comp_def
  proof (rule map_idI)
    fix x :: vec
    assume "x \<in> set xs"
    with assms have "length x = 4"
      by (simp add: list_all_iff)
    then obtain p q r s where "x = [p, q, r, s]"
      by (rule length4_cases)
    then show "?centroid (?corners x) = x"
      by (simp add: field_simps)
  qed
  with BBoxesToXYWH_rows [OF len] fwd show ?thesis by simp
qed

theorem xywh_bboxes_roundtrip_witness:
  "list_all (\<lambda>x. length x = 4) [[3, 5, 2, 4 :: real]] \<and>
   XYWHToBBoxes [[3, 5, 2, 4]] = Inr [[3, 2, 7, 4]] \<and>
   BBoxesToXYWH [[3, 2, 7, 4]] = Inr [[3, 5, 2, 4]]"
proof -
  have h: "list_all (\<lambda>x. length x = 4) [[3, 5, 2, 4 :: real]]" by simp
  have f: "XYWHToBBoxes [[3, 5, 2, 4]] = Inr [[3, 2, 7, 4]]"
    using XYWHToBBoxes_rows [OF h] by simp
  from xywh_bboxes_roundtrip [OF h] f h show ?thesis by auto
qed

subsection \<open>Coordinate transform\<close>

lemma length3_cases:
  assumes "length (x :: 'a list) = 3"
  obtains a b c where "x = [a, b, c]"
proof -
  from assms obtain a x1 where x: "x = a # x1" and "length x1 = 2"
    by (cases x) auto
  then obtain b x2 where x1: "x1 = b # x2" and "length x2 = 1"
    by (cases x1) auto
  then obtain c where "x2 = [c]"
    by (cases x2) auto
  with x x1 show thesis using that by simp
qed

lemma upt_3: "[0..<3] = [0, Suc 0, 2]"
  by (simp add: upt_rec)

lemma sum_lessThan_3: "(\<Sum>k<(3::nat). f k) = f 0 + f 1 + (f 2 :: real)"
  by (simp add: lessThan_Suc numeral_3_eq_3 numeral_2_eq_2)

lemma spec_CoordinateTransform_eq:
  "spec_CoordinateTransform [x, y, z] [tx, ty, tz, yaw, roll, pitch] =
    [(x + tx) * (cos yaw * cos pitch - sin yaw * sin roll * sin pitch)
       + (y + ty) * (sin yaw * cos pitch + cos yaw * sin roll * sin pitch)
       - (z + tz) * (cos roll * sin pitch),
     (y + ty) * (cos yaw * cos roll) - (x + tx) * (sin yaw * cos roll) + (z + tz) * sin roll,
     (x + tx) * (cos yaw * sin pitch + sin yaw * sin roll * cos pitch)
       + (y + ty) * (sin yaw * sin pitch - cos yaw * sin roll * cos pitch)
       + (z + tz) * (cos roll * cos pitch)]"
  by (simp add: spec_CoordinateTransform_def row_times_def fmat_mul_def sum_lessThan_3
      spec_Rz_def spec_Rx_def spec_Ry_def algebra_simps)

lemma length6_cases:
  assumes "length (x :: 'a list) = 6"
  obtains a b c d e f where "x = [a, b, c, d, e, f]"
proof -
  from assms obtain a b c y where x: "x = a # b # c # y" and "length y = 3"
    by (cases x; cases "tl x"; cases "tl (tl x)") auto
  then obtain d e f where "y = [d, e, f]"
    using length3_cases by blast
  with x show thesis using that by simp
qed

lemma matmul_UnitZ_UnitX:
  "matmul (UnitZ yaw) (UnitX roll) =
     Inr [[cos yaw, - (sin yaw * cos roll), sin yaw * sin roll],
          [sin yaw, cos yaw * cos roll, - (cos yaw * sin roll)],
          [0, sin roll, cos roll]]"
  by (simp add: matmul_def UnitX_def UnitZ_def mat_T_def n_cols_def dot_def upt_3)

lemma matmul_ZX_UnitY:
  "matmul [[cos yaw, - (sin yaw * cos roll), sin yaw * sin roll],
          [sin yaw, cos yaw * cos roll, - (cos yaw * sin roll)],
          [0, sin roll, cos roll]] (UnitY pitch) =
     Inr [[cos yaw * cos pitch - sin yaw * sin roll * sin pitch, - (sin yaw * cos roll),
           cos yaw * sin pitch + sin yaw * sin roll * cos pitch],
          [sin yaw * cos pitch + cos yaw * sin roll * sin pitch, cos yaw * cos roll,
           sin yaw * sin pitch - cos yaw * sin roll * cos pitch],
          [- (cos roll * sin pitch), sin roll, cos roll * cos pitch]]"
  by (simp add: matmul_def UnitY_def mat_T_def n_cols_def dot_def upt_3 algebra_simps)

lemma CoordinateTransform_point:
  "map (dot (map2 (+) [x, y, z] [tx, ty, tz]))
     (mat_T [[cos yaw * cos pitch - sin yaw * sin roll * sin pitch, - (sin yaw * cos roll),
           cos yaw * sin pitch + sin yaw * sin roll * cos pitch],
          [sin yaw * cos pitch + cos yaw * sin roll * sin pitch, cos yaw * cos roll,
           sin yaw * sin pitch - cos yaw * sin roll * cos pitch],
          [- (cos roll * sin pitch), sin roll, cos roll * cos pitch]]) =
   spec_CoordinateTransform [x, y, z] [tx, ty, tz, yaw, roll, pitch]"
  by (simp add: spec_CoordinateTransform_eq mat_T_def n_cols_def dot_def upt_3 algebra_simps)

text \<open>
  Claim C6. For points of shape \<open>[..., 3]\<close> and a pose
  \<open>(tx, ty, tz, yaw, roll, pitch)\<close>, \<^verbatim>\<open>CoordinateTransform\<close> returns, for every point,
  the translated point \<open>p + (tx, ty, tz)\<close> multiplied as a row vector with
  \<open>R = Rz(yaw) \<cdot> Rx(roll) \<cdot> Ry(pitch)\<close>: the translation comes first, and the rotations are
  composed in the fixed order yaw about Z, roll about X, pitch about Y.
\<close>

theorem CoordinateTransform_spec:
  assumes "list_all (\<lambda>p. length p = 3) points" and "length pose = 6"
  shows "CoordinateTransform points pose = Inr (map (\<lambda>p. spec_CoordinateTransform p pose) points)"
proof -
  from assms(2) obtain tx ty tz yaw roll pitch where pose: "pose = [tx, ty, tz, yaw, roll, pitch]"
    by (rule length6_cases)
  let ?R = "[[cos yaw * cos pitch - sin yaw * sin roll * sin pitch, - (sin yaw * cos roll),
           cos yaw * sin pitch + sin yaw * sin roll * cos pitch],
          [sin yaw * cos pitch + cos yaw * sin roll * sin pitch, cos yaw * cos roll,
           sin yaw * sin pitch - cos yaw * sin roll * cos pitch],
          [- (cos roll * sin pitch), sin roll, cos roll * cos pitch]]"
  from assms(1) have translated:
    "add_broadcast points [tx, ty, tz] = Inr (map (\<lambda>p. map2 (+) p [tx, ty, tz]) points)"
    by (auto simp: add_broadcast_def list_all_iff)
  have widths: "list_all (\<lambda>r. length r = length ?R) (map (\<lambda>p. map2 (+) p [tx, ty, tz]) points)"
    using assms(1) by (auto simp: list_all_iff)
  have "CoordinateTransform points pose =
      matmul (map (\<lambda>p. map2 (+) p [tx, ty, tz]) points) ?R"
    by (simp add: CoordinateTransform_def pose translated bind_err_def BroadcastMatmul_def
        matmul_UnitZ_UnitX matmul_ZX_UnitY)
  also have "\<dots> = Inr (map (\<lambda>p. map (dot (map2 (+) p [tx, ty, tz])) (mat_T ?R)) points)"
    using widths unfolding matmul_def by (simp add: comp_def)
  also have "map (\<lambda>p. map (dot (map2 (+) p [tx, ty, tz])) (mat_T ?R)) points =
      map (\<lambda>p. spec_CoordinateTransform p pose) points"
  proof (rule map_cong [OF refl])
    fix p assume "p \<in> set points"
    with assms(1) have "length p = 3" by (simp add: list_all_iff)
    then obtain x y z where "p = [x, y, z]" by (rule length3_cases)
    then show "map (dot (map2 (+) p [tx, ty, tz])) (mat_T ?R) = spec_CoordinateTransform p pose"
      unfolding pose by (simp only: CoordinateTransform_point)
  qed
  finally show ?thesis .
qed

theorem CoordinateTransform_spec_witness:
  "list_all (\<lambda>p. length p = 3) [[1, 2, 3 :: real]] \<and> length [1, 1, 1, pi / 2, 0, 0 :: real] = 6 \<and>
   CoordinateTransform [[1, 2, 3]] [1, 1, 1, pi / 2, 0, 0] = Inr [[3, - 2, 4]] \<and>
   spec_CoordinateTransform [1, 2, 3] [1, 1, 1, pi / 2, 0, 0] = [3, - 2, 4]"
proof -
  have h1: "list_all (\<lambda>p. length p = 3) [[1, 2, 3 :: real]]" by simp
  have h2: "length [1, 1, 1, pi / 2, 0, 0 :: real] = 6" by simp
  have s: "spec_CoordinateTransform [1, 2, 3] [1, 1, 1, pi / 2, 0, 0] = [3, - 2, 4]"
    by (simp add: spec_CoordinateTransform_eq)
  from CoordinateTransform_spec [OF h1 h2] s h1 h2 show ?thesis by simp
qed

subsection \<open>Spherical coordinates\<close>

lemma abs_le_dist: "\<bar>z\<bar> \<le> sqrt (x * x + y * y + z * (z :: real))"
proof -
  have "z * z \<le> x * x + y * y + z * z"
    by (simp add: add_nonneg_nonneg)
  then have "sqrt (z * z) \<le> sqrt (x * x + y * y + z * z)"
    by (rule real_sqrt_le_mono)
  then show ?thesis by simp
qed

lemma inclination_in_range:
  fixes x y z eps :: real
  assumes "0 < eps"
  shows "0 < max (sqrt (x * x + y * y + z * z)) eps
    \<and> - 1 \<le> z / max (sqrt (x * x + y * y + z * z)) eps
    \<and> z / max (sqrt (x * x + y * y + z * z)) eps \<le> 1"
proof -
  let ?d = "max (sqrt (x * x + y * y + z * z)) eps"
  have pos: "0 < ?d"
    using assms by (simp add: less_max_iff_disj)
  have "\<bar>z\<bar> \<le> sqrt (x * x + y * y + z * z)"
    by (rule abs_le_dist)
  also have "\<dots> \<le> ?d"
    by (rule max.cobounded1)
  finally have "\<bar>z\<bar> \<le> ?d" .
  then have "\<bar>z / ?d\<bar> \<le> 1"
    using pos by simp
  moreover have "- 1 \<le> t \<and> t \<le> 1" if "\<bar>t\<bar> \<le> 1" for t :: real
    using that by linarith
  ultimately have "- 1 \<le> z / ?d \<and> z / ?d \<le> 1"
    by blast
  with pos show ?thesis by blast
qed

lemma fl_div_defined: "0 < d \<Longrightarrow> fl_div a d = Some (a / d)"
  by (simp add: fl_div_def)

lemma fl_acos_defined: "- 1 \<le> t \<Longrightarrow> t \<le> 1 \<Longrightarrow> fl_acos t = Some (arccos t)"
  by (auto simp: fl_acos_def)

lemma SphericalCoordinatesTransform_point:
  "(let dist = fl_sqrt (sum_list (map (\<lambda>c. c * c) [x, y, z]));
        theta = Option.bind dist (\<lambda>d.
                  Option.bind (fl_div z (max d (1 / 10 ^ 7))) fl_acos);
        phi = atan2 y x
    in [dist, theta, Some phi]) =
   [Some (sqrt (x * x + y * y + z * z)),
    Some (arccos (z / max (sqrt (x * x + y * y + z * z)) (1 / 10 ^ 7))),
    Some (atan2 y x)]"
proof -
  let ?d = "max (sqrt (x * x + y * y + z * z)) (1 / 10 ^ 7)"
  have nonneg: "\<not> x * x + y * y + z * z < 0"
    by (simp add: not_less add_nonneg_nonneg)
  have dist: "fl_sqrt (sum_list (map (\<lambda>c. c * c) [x, y, z])) = Some (sqrt (x * x + y * y + z * z))"
    using nonneg by (simp add: fl_sqrt_def)
  have range: "0 < ?d \<and> - 1 \<le> z / ?d \<and> z / ?d \<le> 1"
    by (rule inclination_in_range) simp
  then have quot: "fl_div z ?d = Some (z / ?d)"
    by (blast intro: fl_div_defined)
  from range have acos: "fl_acos (z / ?d) = Some (arccos (z / ?d))"
    by (blast intro: fl_acos_defined)
  show ?thesis
    unfolding Let_def dist Option.bind.simps quot acos ..
qed

text \<open>
  Claim C7. \<^verbatim>\<open>SphericalCoordinatesTransform\<close> is total: for every tensor of 3-vectors it
  returns, for each point, \<open>dist = sqrt (x\<^sup>2 + y\<^sup>2 + z\<^sup>2)\<close>,
  \<open>theta = acos (z / max dist 1e-7)\<close> and \<open>phi = atan2 y x\<close>, none of them NaN.
  The clamped denominator is positive and the quotient lies in \<open>[-1, 1]\<close>, so neither the
  division nor the arc cosine is undefined, the origin included.
\<close>

theorem SphericalCoordinatesTransform_total:
  assumes "list_all (\<lambda>p. length p = 3) points_xyz"
  shows "SphericalCoordinatesTransform points_xyz =
      Inr (map (\<lambda>p. [Some (sqrt (p ! 0 * p ! 0 + p ! 1 * p ! 1 + p ! 2 * p ! 2)),
                      Some (arccos (p ! 2 /
                        max (sqrt (p ! 0 * p ! 0 + p ! 1 * p ! 1 + p ! 2 * p ! 2)) (1 / 10 ^ 7))),
                      Some (atan2 (p ! 1) (p ! 0))]) points_xyz)
    \<and> list_all (\<lambda>p.
        0 < max (sqrt (p ! 0 * p ! 0 + p ! 1 * p ! 1 + p ! 2 * p ! 2)) (1 / 10 ^ 7)
        \<and> - 1 \<le> p ! 2 / max (sqrt (p ! 0 * p ! 0 + p ! 1 * p ! 1 + p ! 2 * p ! 2)) (1 / 10 ^ 7)
        \<and> p ! 2 / max (sqrt (p ! 0 * p ! 0 + p ! 1 * p ! 1 + p ! 2 * p ! 2)) (1 / 10 ^ 7) \<le> 1)
       points_xyz"
proof
  from assms have wide: "list_all (\<lambda>p. 3 \<le> length p) points_xyz"
    by (simp add: list_all_iff)
  have "map (\<lambda>p.
        let dist = fl_sqrt (sum_list (map (\<lambda>c. c * c) p));
            theta = Option.bind dist (\<lambda>d.
                      Option.bind (fl_div (p ! 2) (max d (1 / 10 ^ 7))) fl_acos);
            phi = atan2 (p ! 1) (p ! 0)
        in [dist, theta, Some phi]) points_xyz =
      map (\<lambda>p. [Some (sqrt (p ! 0 * p ! 0 + p ! 1 * p ! 1 + p ! 2 * p ! 2)),
                      Some (arccos (p ! 2 /
                        max (sqrt (p ! 0 * p ! 0 + p ! 1 * p ! 1 + p ! 2 * p ! 2)) (1 / 10 ^ 7))),
                      Some (atan2 (p ! 1) (p ! 0))]) points_xyz"
  proof (rule map_cong [OF refl])
    fix p assume "p \<in> set points_xyz"
    with assms have "length p = 3" by (simp add: list_all_iff)
    then obtain x y z where p: "p = [x, y, z]" by (rule length3_cases)
    have idx: "[x, y, z] ! 2 = z" "[x, y, z] ! 1 = y" "[x, y, z] ! 0 = x"
      by simp_all
    show "(let dist = fl_sqrt (sum_list (map (\<lambda>c. c * c) p));
            theta = Option.bind dist (\<lambda>d.
                      Option.bind (fl_div (p ! 2) (max d (1 / 10 ^ 7))) fl_acos);
            phi = atan2 (p ! 1) (p ! 0)
        in [dist, theta, Some phi]) =
       [Some (sqrt (p ! 0 * p ! 0 + p ! 1 * p ! 1 + p ! 2 * p ! 2)),
                      Some (arccos (p ! 2 /
                        max (sqrt (p ! 0 * p ! 0 + p ! 1 * p ! 1 + p ! 2 * p ! 2)) (1 / 10 ^ 7))),
                      Some (atan2 (p ! 1) (p ! 0))]"
      unfolding p idx SphericalCoordinatesTransform_point ..
  qed
  with wide show "SphericalCoordinatesTransform points_xyz =
      Inr (map (\<lambda>p. [Some (sqrt (p ! 0 * p ! 0 + p ! 1 * p ! 1 + p ! 2 * p ! 2)),
                      Some (arccos (p ! 2 /
                        max (sqrt (p ! 0 * p ! 0 + p ! 1 * p ! 1 + p ! 2 * p ! 2)) (1 / 10 ^ 7))),
                      Some (atan2 (p ! 1) (p ! 0))]) points_xyz)"
    by (simp only: SphericalCoordinatesTransform_def if_True)
next
  show "list_all (\<lambda>p.
        0 < max (sqrt (p ! 0 * p ! 0 + p ! 1 * p ! 1 + p ! 2 * p ! 2)) (1 / 10 ^ 7)
        \<and> - 1 \<le> p ! 2 / max (sqrt (p ! 0 * p ! 0 + p ! 1 * p ! 1 + p ! 2 * p ! 2)) (1 / 10 ^ 7)
        \<and> p ! 2 / max (sqrt (p ! 0 * p ! 0 + p ! 1 * p ! 1 + p ! 2 * p ! 2)) (1 / 10 ^ 7) \<le> 1)
       points_xyz"
    unfolding list_all_iff
  proof
    fix p :: vec
    show "0 < max (sqrt (p ! 0 * p ! 0 + p ! 1 * p ! 1 + p ! 2 * p ! 2)) (1 / 10 ^ 7)
        \<and> - 1 \<le> p ! 2 / max (sqrt (p ! 0 * p ! 0 + p ! 1 * p ! 1 + p ! 2 * p ! 2)) (1 / 10 ^ 7)
        \<and> p ! 2 / max (sqrt (p ! 0 * p ! 0 + p ! 1 * p ! 1 + p ! 2 * p ! 2)) (1 / 10 ^ 7) \<le> 1"
      by (rule inclination_in_range) simp
  qed
qed

theorem SphericalCoordinatesTransform_total_witness:
  "list_all (\<lambda>p. length p = 3) [[0, 0, 0 :: real], [0, 0, 2]] \<and>
   SphericalCoordinatesTransform [[0, 0, 0], [0, 0, 2]] =
     Inr [[Some 0, Some (pi / 2), Some 0], [Some 2, Some 0, Some 0]]"
proof -
  have h: "list_all (\<lambda>p. length p = 3) [[0, 0, 0 :: real], [0, 0, 2]]" by simp
  have m: "max (2 :: real) (1 / 10 ^ 7) = 2" by simp
  from SphericalCoordinatesTransform_total [OF h] h show ?thesis
    by (simp add: atan2_def m)
qed

subsection \<open>Rounding to single precision\<close>













subsection \<open>Points within 2-D boxes\<close>





lemma orient_self [simp]: "orient a b a = 0" "orient a b b = 0"
  by (simp_all add: orient_def)

























subsection \<open>Points within 3-D boxes\<close>











subsection \<open>Masked detector scores\<close>

lemma Inference_scores:
  assumes "BBoxesAndLogits input = Inr (pb, cl)"
    and "DecodeWithNMS pb (tensor_map sigmoid cl) (nms_iou_threshold p) (nms_score_threshold p)
           (max_nms_boxes p) (use_oriented_per_class_nms p) = Inr (b, s, m)"
    and "shape s = shape m"
  shows "Inference p BBoxesAndLogits DecodeWithNMS input =
      Inr [''per_class_predicted_bboxes'' \<mapsto> b,
           ''per_class_predicted_bbox_scores'' \<mapsto> masked_scores s m,
           ''per_class_valid_mask'' \<mapsto> m]"
  using assms by (simp add: Inference_def bind_err_def tensor_mul_def masked_scores_def)

lemma Decode_outputs:
  assumes "BBoxesAndLogits input = Inr (pb, cl)"
    and "DecodeWithNMS pb (tensor_map sigmoid cl) (nms_iou_threshold p) (nms_score_threshold p)
           (max_nms_boxes p) (use_oriented_per_class_nms p) = Inr (b, s, m)"
    and "shape s = shape m"
    and "shape pb = [batch_size, num_bboxes, d]"
    and "shape cl = [batch_size, num_bboxes, num_classes p]"
    and "shape s = [batch_size, num_classes p, max_nms_boxes p]"
  shows "Decode p BBoxesAndLogits DecodeWithNMS ProcessOutputs global_step input =
      Inr (([''per_class_predicted_bboxes'' \<mapsto> TensorValue b,
            ''per_class_predicted_bbox_scores'' \<mapsto> TensorValue (masked_scores s m),
            ''per_class_valid_mask'' \<mapsto> TensorValue m,
            ''visualization_weights'' \<mapsto> TensorValue
               \<lparr>shape = shape s,
                elems = (\<lambda>i. if visualization_classification_threshold p \<le> elems s i * elems m i
                             then elems s i * elems m i else 0)\<rparr>]
           ++ ProcessOutputs input
                [''per_class_predicted_bboxes'' \<mapsto> b,
                 ''per_class_predicted_bbox_scores'' \<mapsto> masked_scores s m,
                 ''per_class_valid_mask'' \<mapsto> m])
          (''global_step'' \<mapsto> StepValue global_step))"
proof -
  show ?thesis
    using assms
    by (simp add: Decode_def bind_err_def tensor_mul_def masked_scores_def GetShape3_def
        HasShape_def Let_def cong: if_cong)
qed

text \<open>
  Claim C8. Let \<^verbatim>\<open>DecodeWithNMS\<close> return boxes, scores and a validity mask of one
  shape. \<^verbatim>\<open>Inference\<close> returns, as the per-class box scores, the scores multiplied
  entry by entry with the mask; so does \<^verbatim>\<open>Decode\<close> when the shapes pass its checks and
  the output decoder adds no field of the same name, and its visualization weights are
  these masked scores with every entry below the visualization threshold replaced by
  zero. An entry whose mask is zero reads zero.
\<close>

theorem masked_box_scores:
  assumes boxes: "BBoxesAndLogits input = Inr (pb, cl)"
    and nms: "DecodeWithNMS pb (tensor_map sigmoid cl) (nms_iou_threshold p) (nms_score_threshold p)
           (max_nms_boxes p) (use_oriented_per_class_nms p) = Inr (b, s, m)"
    and same: "shape s = shape m"
  shows "(\<exists>fetches. Inference p BBoxesAndLogits DecodeWithNMS input = Inr fetches
            \<and> fetches ''per_class_predicted_bbox_scores'' = Some (masked_scores s m))
    \<and> (shape pb = [batch_size, num_bboxes, d]
         \<and> shape cl = [batch_size, num_bboxes, num_classes p]
         \<and> shape s = [batch_size, num_classes p, max_nms_boxes p]
         \<and> ''per_class_predicted_bbox_scores'' \<notin> dom (ProcessOutputs input
                [''per_class_predicted_bboxes'' \<mapsto> b,
                 ''per_class_predicted_bbox_scores'' \<mapsto> masked_scores s m,
                 ''per_class_valid_mask'' \<mapsto> m])
         \<and> ''visualization_weights'' \<notin> dom (ProcessOutputs input
                [''per_class_predicted_bboxes'' \<mapsto> b,
                 ''per_class_predicted_bbox_scores'' \<mapsto> masked_scores s m,
                 ''per_class_valid_mask'' \<mapsto> m])
        \<longrightarrow> (\<exists>out. Decode p BBoxesAndLogits DecodeWithNMS ProcessOutputs global_step input = Inr out
              \<and> out ''per_class_predicted_bbox_scores'' = Some (TensorValue (masked_scores s m))
              \<and> out ''visualization_weights'' = Some (TensorValue
                   \<lparr>shape = shape s,
                    elems = (\<lambda>i. if visualization_classification_threshold p \<le> elems s i * elems m i
                                 then elems s i * elems m i else 0)\<rparr>)))
    \<and> (\<forall>i. elems (masked_scores s m) i = elems s i * elems m i)
    \<and> (\<forall>i. elems m i = 0 \<longrightarrow> elems (masked_scores s m) i = 0)"
proof (intro conjI impI allI)
  show "\<exists>fetches. Inference p BBoxesAndLogits DecodeWithNMS input = Inr fetches
            \<and> fetches ''per_class_predicted_bbox_scores'' = Some (masked_scores s m)"
    by (simp add: Inference_scores [where BBoxesAndLogits = BBoxesAndLogits and input = input
        and DecodeWithNMS = DecodeWithNMS and p = p, OF boxes nms same])
next
  let ?mo = "[''per_class_predicted_bboxes'' \<mapsto> b,
             ''per_class_predicted_bbox_scores'' \<mapsto> masked_scores s m,
             ''per_class_valid_mask'' \<mapsto> m]"
  assume h: "shape pb = [batch_size, num_bboxes, d]
         \<and> shape cl = [batch_size, num_bboxes, num_classes p]
         \<and> shape s = [batch_size, num_classes p, max_nms_boxes p]
         \<and> ''per_class_predicted_bbox_scores'' \<notin> dom (ProcessOutputs input ?mo)
         \<and> ''visualization_weights'' \<notin> dom (ProcessOutputs input ?mo)"
  then have free: "ProcessOutputs input ?mo ''per_class_predicted_bbox_scores'' = None"
      "ProcessOutputs input ?mo ''visualization_weights'' = None"
    by (simp_all add: domIff)
  from h have run: "Decode p BBoxesAndLogits DecodeWithNMS ProcessOutputs global_step input =
      Inr (([''per_class_predicted_bboxes'' \<mapsto> TensorValue b,
            ''per_class_predicted_bbox_scores'' \<mapsto> TensorValue (masked_scores s m),
            ''per_class_valid_mask'' \<mapsto> TensorValue m,
            ''visualization_weights'' \<mapsto> TensorValue
               \<lparr>shape = shape s,
                elems = (\<lambda>i. if visualization_classification_threshold p \<le> elems s i * elems m i
                             then elems s i * elems m i else 0)\<rparr>]
           ++ ProcessOutputs input ?mo)
          (''global_step'' \<mapsto> StepValue global_step))"
    by (intro Decode_outputs [where BBoxesAndLogits = BBoxesAndLogits and input = input
        and DecodeWithNMS = DecodeWithNMS and p = p, OF boxes nms same]) simp_all
  show "\<exists>out. Decode p BBoxesAndLogits DecodeWithNMS ProcessOutputs global_step input = Inr out
              \<and> out ''per_class_predicted_bbox_scores'' = Some (TensorValue (masked_scores s m))
              \<and> out ''visualization_weights'' = Some (TensorValue
                   \<lparr>shape = shape s,
                    elems = (\<lambda>i. if visualization_classification_threshold p \<le> elems s i * elems m i
                                 then elems s i * elems m i else 0)\<rparr>)"
    unfolding run by (simp add: map_add_def free)
next
  show "elems (masked_scores s m) i = elems s i * elems m i" for i
    by (simp add: masked_scores_def)
next
  show "elems (masked_scores s m) i = 0" if "elems m i = 0" for i
    using that by (simp add: masked_scores_def)
qed

theorem masked_box_scores_witness:
  "(let p = \<lparr>num_classes = 1, max_nms_boxes = 2, nms_iou_threshold = [3 / 10],
              nms_score_threshold = [1 / 100], visualization_classification_threshold = 1 / 4,
              use_oriented_per_class_nms = False\<rparr>;
        pb = \<lparr>shape = [1, 2, 7], elems = (\<lambda>i. 0)\<rparr>;
        cl = \<lparr>shape = [1, 2, 1], elems = (\<lambda>i. 0)\<rparr>;
        b = \<lparr>shape = [1, 1, 2, 7], elems = (\<lambda>i. 0)\<rparr>;
        s = \<lparr>shape = [1, 1, 2], elems = (\<lambda>i. if i = [0, 0, 0] then 9 / 10 else 1 / 5)\<rparr>;
        m = \<lparr>shape = [1, 1, 2], elems = (\<lambda>i. if i = [0, 0, 0] then 1 else 0)\<rparr>;
        logits = (\<lambda>u :: unit. Inr (pb, cl) :: error + tensor \<times> tensor);
        nms = (\<lambda>bb sc iou thr mx ori. Inr (b, s, m) :: error + tensor \<times> tensor \<times> tensor);
        post = (\<lambda>(u :: unit) (mo :: string \<rightharpoonup> tensor). (Map.empty :: string \<rightharpoonup> output_value))
    in shape s = shape m
      \<and> (\<exists>fetches t. Inference p logits nms () = Inr fetches
            \<and> fetches ''per_class_predicted_bbox_scores'' = Some t
            \<and> elems t [0, 0, 0] = 9 / 10 \<and> elems t [0, 0, 1] = 0)
      \<and> (\<exists>out t w. Decode p logits nms post 7 () = Inr out
            \<and> out ''per_class_predicted_bbox_scores'' = Some (TensorValue t)
            \<and> elems t [0, 0, 0] = 9 / 10 \<and> elems t [0, 0, 1] = 0
            \<and> out ''visualization_weights'' = Some (TensorValue w)
            \<and> elems w [0, 0, 0] = 9 / 10 \<and> elems w [0, 0, 1] = 0))"
proof -
  define p where "p = \<lparr>num_classes = 1, max_nms_boxes = 2, nms_iou_threshold = [3 / 10 :: real],
              nms_score_threshold = [1 / 100 :: real], visualization_classification_threshold = 1 / 4,
              use_oriented_per_class_nms = False\<rparr>"
  define pb where "pb = \<lparr>shape = [1, 2, 7], elems = (\<lambda>i. 0)\<rparr>"
  define cl where "cl = \<lparr>shape = [1, 2, 1], elems = (\<lambda>i. 0)\<rparr>"
  define b where "b = \<lparr>shape = [1, 1, 2, 7], elems = (\<lambda>i. 0)\<rparr>"
  define s where "s = \<lparr>shape = [1, 1, 2], elems = (\<lambda>i. if i = [0, 0, 0] then 9 / 10 else 1 / 5)\<rparr>"
  define m where "m = \<lparr>shape = [1, 1, 2], elems = (\<lambda>i. if i = [0, 0, 0] then 1 else 0)\<rparr>"
  define logits where "logits = (\<lambda>u :: unit. Inr (pb, cl) :: error + tensor \<times> tensor)"
  define nms :: nms_fn where "nms = (\<lambda>bb sc iou thr mx ori. Inr (b, s, m))"
  define post where
    "post = (\<lambda>(u :: unit) (mo :: string \<rightharpoonup> tensor). (Map.empty :: string \<rightharpoonup> output_value))"
  have h1: "logits () = Inr (pb, cl)"
    by (simp add: logits_def)
  have h2: "nms pb (tensor_map sigmoid cl) (nms_iou_threshold p) (nms_score_threshold p)
           (max_nms_boxes p) (use_oriented_per_class_nms p) = Inr (b, s, m)"
    by (simp add: nms_def)
  have h3: "shape s = shape m"
    by (simp add: s_def m_def)
  have shapes: "shape pb = [1, 2, 7]" "shape cl = [1, 2, num_classes p]"
      "shape s = [1, num_classes p, max_nms_boxes p]"
    by (simp_all add: pb_def cl_def s_def p_def)
  have free: "''per_class_predicted_bbox_scores'' \<notin> dom (post () mo)"
      "''visualization_weights'' \<notin> dom (post () mo)" for mo
    by (simp_all add: post_def)
  note inst = masked_box_scores [where BBoxesAndLogits = logits and input = "()" and DecodeWithNMS = nms
      and p = p and ProcessOutputs = post and global_step = 7 and batch_size = 1 and num_bboxes = 2
      and d = 7, OF h1 h2 h3]
  from inst obtain fetches where f: "Inference p logits nms () = Inr fetches"
      "fetches ''per_class_predicted_bbox_scores'' = Some (masked_scores s m)"
    by blast
  from inst shapes free obtain out where o: "Decode p logits nms post 7 () = Inr out"
      "out ''per_class_predicted_bbox_scores'' = Some (TensorValue (masked_scores s m))"
      "out ''visualization_weights'' = Some (TensorValue
                   \<lparr>shape = shape s,
                    elems = (\<lambda>i. if visualization_classification_threshold p \<le> elems s i * elems m i
                                 then elems s i * elems m i else 0)\<rparr>)"
    by blast
  from inst have e: "elems (masked_scores s m) i = elems s i * elems m i" for i
    by blast
  have t: "elems (masked_scores s m) [0, 0, 0] = 9 / 10" "elems (masked_scores s m) [0, 0, 1] = 0"
    unfolding e by (simp_all add: s_def m_def)
  define w where "w = \<lparr>shape = shape s,
                    elems = (\<lambda>i. if visualization_classification_threshold p \<le> elems s i * elems m i
                                 then elems s i * elems m i else 0)\<rparr>"
  have w: "elems w [0, 0, 0] = 9 / 10" "elems w [0, 0, 1] = 0"
    by (simp_all add: w_def s_def m_def p_def)
  note o' = o [folded w_def]
  have "shape s = shape m
      \<and> (\<exists>fetches t. Inference p logits nms () = Inr fetches
            \<and> fetches ''per_class_predicted_bbox_scores'' = Some t
            \<and> elems t [0, 0, 0] = 9 / 10 \<and> elems t [0, 0, 1] = 0)
      \<and> (\<exists>out t w. Decode p logits nms post 7 () = Inr out
            \<and> out ''per_class_predicted_bbox_scores'' = Some (TensorValue t)
            \<and> elems t [0, 0, 0] = 9 / 10 \<and> elems t [0, 0, 1] = 0
            \<and> out ''visualization_weights'' = Some (TensorValue w)
            \<and> elems w [0, 0, 0] = 9 / 10 \<and> elems w [0, 0, 1] = 0)"
    using h3 f o' t w by blast
  then show ?thesis
    unfolding Let_def p_def pb_def cl_def b_def s_def m_def logits_def nms_def post_def .
qed

subsection \<open>Writing the decoded records\<close>

lemma fold_writer_write:
  "fold (\<lambda>(_, v) f. writer_write path v f) out (fs(path \<mapsto> acc)) = fs(path \<mapsto> acc @ map snd out)"
proof (induction out arbitrary: acc)
  case Nil
  then show ?case by simp
next
  case (Cons kv out)
  let ?F = "\<lambda>(_, v) f. writer_write path v f"
  have "fold ?F (kv # out) (fs(path \<mapsto> acc)) = fold ?F out (?F kv (fs(path \<mapsto> acc)))"
    by simp
  also have "?F kv (fs(path \<mapsto> acc)) = fs(path \<mapsto> acc @ [snd kv])"
    by (simp add: writer_write_def split_beta)
  also have "fold ?F out (fs(path \<mapsto> acc @ [snd kv])) = fs(path \<mapsto> (acc @ [snd kv]) @ map snd out)"
    by (rule Cons.IH)
  finally show ?case
    by simp
qed

text \<open>
  Claim C10. \<^verbatim>\<open>DecodeFinalize\<close> called with \<open>decode_out\<close> empty or \<^verbatim>\<open>None\<close> returns
  without opening a writer: the file system is unchanged, no file is created at
  \<open>decode_out_path\<close>. Otherwise the file at \<open>decode_out_path\<close> holds exactly the values of
  \<open>decode_out\<close>, one record per element, in list order, and no other file changes.
\<close>

theorem DecodeFinalize_records:
  "(decode_out args = None \<or> decode_out args = Some [] \<longrightarrow> DecodeFinalize args fs = fs)
   \<and> (decode_out args = Some out \<and> out \<noteq> [] \<longrightarrow>
        DecodeFinalize args fs = fs(decode_out_path args \<mapsto> map snd out)
        \<and> length (map snd out) = length out)"
proof (intro conjI impI)
  assume "decode_out args = None \<or> decode_out args = Some []"
  then show "DecodeFinalize args fs = fs"
    by (auto simp: DecodeFinalize_def)
next
  assume h: "decode_out args = Some out \<and> out \<noteq> []"
  then obtain kv rest where out: "out = kv # rest"
    by (cases out) auto
  have "fold (\<lambda>(_, v) f. writer_write (decode_out_path args) v f) out
          (TFRecordWriter (decode_out_path args) fs)
      = fs(decode_out_path args \<mapsto> [] @ map snd out)"
    unfolding TFRecordWriter_def by (rule fold_writer_write)
  with h show "DecodeFinalize args fs = fs(decode_out_path args \<mapsto> map snd out)"
    by (simp add: DecodeFinalize_def out)
next
  show "length (map snd out) = length out"
    by simp
qed

theorem DecodeFinalize_records_witness:
  "DecodeFinalize \<lparr>decode_out_path = ''out'', decode_out = Some ([] :: (nat \<times> string) list)\<rparr>
      [''old'' \<mapsto> [''x'']] = [''old'' \<mapsto> [''x'']]
   \<and> DecodeFinalize \<lparr>decode_out_path = ''out'', decode_out = (None :: (nat \<times> string) list option)\<rparr>
      [''old'' \<mapsto> [''x'']] = [''old'' \<mapsto> [''x'']]
   \<and> DecodeFinalize \<lparr>decode_out_path = ''out'', decode_out = Some [(1 :: nat, ''a''), (2, ''b'')]\<rparr>
      [''old'' \<mapsto> [''x'']] = [''old'' \<mapsto> [''x''], ''out'' \<mapsto> [''a'', ''b'']]"
proof -
  note empty = DecodeFinalize_records [of "\<lparr>decode_out_path = ''out'', decode_out = Some ([] :: (nat \<times> string) list)\<rparr>"
      "[''old'' \<mapsto> [''x'']]", THEN conjunct1]
  note none = DecodeFinalize_records [of "\<lparr>decode_out_path = ''out'', decode_out = (None :: (nat \<times> string) list option)\<rparr>"
      "[''old'' \<mapsto> [''x'']]", THEN conjunct1]
  note some = DecodeFinalize_records [of "\<lparr>decode_out_path = ''out'', decode_out = Some [(1 :: nat, ''a''), (2, ''b'')]\<rparr>"
      "[''old'' \<mapsto> [''x'']]" "[(1 :: nat, ''a''), (2, ''b'')]", THEN conjunct2]
  from empty none some show ?thesis
    by simp
qed

subsection \<open>Order of the range-image transforms\<close>

text \<open>
  Claim C9. When a per-pixel pose is supplied, \<^verbatim>\<open>_XYZFromRangeImage\<close> takes each
  lidar point as it stands after the extrinsics transform (the result without a pixel
  pose), applies that pixel's pose first (rotation, then translation) and only then the
  world-to-vehicle transform, the matrix inverse of the frame pose. Without a frame
  pose the call raises a \<^verbatim>\<open>ValueError\<close>.
\<close>

theorem pixel_pose_before_world_to_vehicle:
  assumes base: "XYZFromRangeImage matrix_inverse lidar_image lidar_image_mask extrinsics
        inclinations None None = Inr base"
    and shape: "map length pixel_pose = map length base"
    and inv: "matrix_inverse frame_pose = Inr world_to_vehicle"
  shows "XYZFromRangeImage matrix_inverse lidar_image lidar_image_mask extrinsics inclinations
        (Some pixel_pose) (Some frame_pose) =
      Inr (map2 (map2 (\<lambda>pose p.
        transform_point (rotation_part world_to_vehicle) (translation_part world_to_vehicle)
          (transform_point (rotation_part pose) (translation_part pose) p))) pixel_pose base)
    \<and> XYZFromRangeImage matrix_inverse lidar_image lidar_image_mask extrinsics inclinations
        (Some pixel_pose) None = Inl ValueError"
proof -
  from base have points:
    "lidar_image_points lidar_image lidar_image_mask extrinsics inclinations = Inr base"
    by (simp add: XYZFromRangeImage_def bind_err_def split: sum.splits)
  show ?thesis
    using shape inv
    by (simp add: XYZFromRangeImage_def points bind_err_def split_beta)
qed

theorem pixel_pose_before_world_to_vehicle_witness:
  "XYZFromRangeImage (\<lambda>m. Inr [[1, 0, 0, 5], [0, 1, 0, 0], [0, 0, 1, 0], [0, 0, 0, 1]])
      [[[0]]] [[False]] [[1, 0, 0, 1], [0, 1, 0, 0], [0, 0, 1, 0], [0, 0, 0, 1]] [0] None None
     = Inr [[[1, 0, 0]]]
   \<and> map length [[[[0, - 1, 0, 0], [1, 0, 0, 0], [0, 0, 1, 0], [0, 0, 0, 1 :: real]]]]
     = map length [[[1, 0, 0 :: real]]]
   \<and> XYZFromRangeImage (\<lambda>m. Inr [[1, 0, 0, 5], [0, 1, 0, 0], [0, 0, 1, 0], [0, 0, 0, 1]])
      [[[0]]] [[False]] [[1, 0, 0, 1], [0, 1, 0, 0], [0, 0, 1, 0], [0, 0, 0, 1]] [0]
      (Some [[[[0, - 1, 0, 0], [1, 0, 0, 0], [0, 0, 1, 0], [0, 0, 0, 1]]]])
      (Some [[1, 0, 0, - 5], [0, 1, 0, 0], [0, 0, 1, 0], [0, 0, 0, 1]])
     = Inr [[[5, 1, 0]]]
   \<and> transform_point [[0, - 1, 0], [1, 0, 0], [0, 0, 1]] [0, 0, 0]
       (transform_point [[1, 0, 0], [0, 1, 0], [0, 0, 1]] [5, 0, 0] [1, 0, 0]) = [0, 6, 0]
   \<and> XYZFromRangeImage (\<lambda>m. Inr [[1, 0, 0, 5], [0, 1, 0, 0], [0, 0, 1, 0], [0, 0, 0, 1]])
      [[[0]]] [[False]] [[1, 0, 0, 1], [0, 1, 0, 0], [0, 0, 1, 0], [0, 0, 0, 1]] [0]
      (Some [[[[0, - 1, 0, 0], [1, 0, 0, 0], [0, 0, 1, 0], [0, 0, 0, 1]]]]) None
     = Inl ValueError"
proof -
  let ?inv = "\<lambda>m :: matrix. Inr [[1, 0, 0, 5], [0, 1, 0, 0], [0, 0, 1, 0], [0, 0, 0, 1 :: real]] :: error + matrix"
  let ?ext = "[[1, 0, 0, 1], [0, 1, 0, 0], [0, 0, 1, 0], [0, 0, 0, 1 :: real]]"
  let ?pp = "[[[[0, - 1, 0, 0], [1, 0, 0, 0], [0, 0, 1, 0], [0, 0, 0, 1 :: real]]]]"
  let ?fp = "[[1, 0, 0, - 5], [0, 1, 0, 0], [0, 0, 1, 0], [0, 0, 0, 1 :: real]]"
  have base: "XYZFromRangeImage ?inv [[[0]]] [[False]] ?ext [0] None None = Inr [[[1, 0, 0]]]"
    by (simp add: XYZFromRangeImage_def lidar_image_points_def bind_err_def transform_point_def
        mat_vec_def rotation_part_def translation_part_def dot_def)
  have shape: "map length ?pp = map length [[[1, 0, 0 :: real]]]"
    by simp
  have inv: "?inv ?fp = Inr [[1, 0, 0, 5], [0, 1, 0, 0], [0, 0, 1, 0], [0, 0, 0, 1]]"
    by simp
  have swapped: "transform_point [[0, - 1, 0], [1, 0, 0], [0, 0, 1]] [0, 0, 0]
       (transform_point [[1, 0, 0], [0, 1, 0], [0, 0, 1]] [5, 0, 0] [1, 0, 0]) = [0, 6, 0 :: real]"
    by (simp add: transform_point_def mat_vec_def dot_def)
  from pixel_pose_before_world_to_vehicle [of ?inv "[[[0]]]" "[[False]]" ?ext "[0]" "[[[1, 0, 0]]]"
      ?pp ?fp, OF base shape inv] base shape swapped
  show ?thesis
    by (simp add: transform_point_def mat_vec_def rotation_part_def translation_part_def dot_def)
qed

subsection \<open>Routing and dropping records\<close>

lemma first_fit_Some:
  "first_fit ubs key = Some b \<Longrightarrow> b < length ubs \<and> key \<le> ubs ! b \<and> (\<forall>j<b. ubs ! j < key)"
proof (induction ubs arbitrary: b)
  case Nil
  then show ?case by simp
next
  case (Cons ub ubs)
  show ?case
  proof (cases "key \<le> ub")
    case True
    with Cons.prems show ?thesis by simp
  next
    case False
    with Cons.prems obtain b' where b': "first_fit ubs key = Some b'" and b: "b = Suc b'"
      by auto
    from Cons.IH [OF b'] False show ?thesis
      unfolding b by (auto simp: nth_Cons split: nat.splits)
  qed
qed

lemma first_fit_None: "first_fit ubs key = None \<longleftrightarrow> (\<forall>ub\<in>set ubs. ub < key)"
  by (induction ubs) auto

lemma route_Some:
  assumes "route ubs key = Some b"
  shows "0 < key \<and> b < length ubs \<and> key \<le> ubs ! b \<and> (\<forall>j<b. ubs ! j < key)"
proof -
  from assms have "0 < key" and "first_fit ubs key = Some b"
    by (simp_all add: route_def split: if_splits)
  then show ?thesis
    using first_fit_Some by blast
qed

lemma route_None: "route ubs key = None \<longleftrightarrow> key \<le> 0 \<or> (\<forall>ub\<in>set ubs. ub < key)"
  by (simp add: route_def first_fit_None)

lemma route_smallest_bound:
  assumes sorted: "sorted_wrt (<) ubs" and r: "route ubs key = Some b"
    and j: "j < length ubs" "key \<le> ubs ! j"
  shows "ubs ! b \<le> ubs ! j"
proof -
  from route_Some [OF r] have b: "b < length ubs" and before: "\<forall>i<b. ubs ! i < key"
    by simp_all
  from before j(2) have "\<not> j < b"
    by auto
  then consider "j = b" | "b < j"
    by linarith
  then show ?thesis
  proof cases
    case 1
    then show ?thesis by simp
  next
    case 2
    with sorted j(1) have "ubs ! b < ubs ! j"
      by (simp add: sorted_wrt_iff_nth_less)
    then show ?thesis by simp
  qed
qed

lemma batcher_inv_init: "batcher_inv cfg S (batcher_init cfg)"
  by (simp add: batcher_inv_def batcher_init_def)

lemma batcher_inv_step:
  assumes inv: "batcher_inv cfg S st" and rec: "rec \<in> S"
  shows "batcher_inv cfg S (batcher_step cfg rec st)"
proof (cases "route (bucket_upper_bound cfg) (snd rec)")
  case None
  with inv show ?thesis by (simp add: batcher_step_def)
next
  case (Some b)
  from route_Some [OF Some] inv have b: "b < length (fst st)"
    by (simp add: batcher_inv_def)
  from Some rec have new: "routed cfg S b rec"
    by (simp add: routed_def)
  from inv b new have acc: "\<forall>r\<in>set (fst st ! b @ [rec]). routed cfg S b r"
    by (auto simp: batcher_inv_def)
  show ?thesis
  proof (cases "bucket_batch_limit cfg ! b \<le> length (fst st ! b @ [rec])")
    case True
    with Some have step: "batcher_step cfg rec st = ((fst st)[b := []], snd st @ [(b, fst st ! b @ [rec])])"
      by (simp add: batcher_step_def Let_def)
    show ?thesis
      unfolding step using inv acc b
      by (auto simp: batcher_inv_def nth_list_update)
  next
    case False
    with Some have step: "batcher_step cfg rec st = ((fst st)[b := fst st ! b @ [rec]], snd st)"
      by (simp add: batcher_step_def Let_def)
    show ?thesis
      unfolding step using inv acc b
      by (auto simp: batcher_inv_def nth_list_update)
  qed
qed

lemma batcher_inv_fold:
  assumes "batcher_inv cfg S st" and "set records \<subseteq> S"
  shows "batcher_inv cfg S (fold (batcher_step cfg) records st)"
  using assms by (induction records arbitrary: st) (simp_all add: batcher_inv_step)

lemma output_batches_routed:
  assumes "(b, recs) \<in> set (output_batches cfg records)" and "rec \<in> set recs"
  shows "rec \<in> set records \<and> route (bucket_upper_bound cfg) (snd rec) = Some b"
proof -
  have "batcher_inv cfg (set records) (batcher_run cfg records)"
    unfolding batcher_run_def by (intro batcher_inv_fold batcher_inv_init subset_refl)
  with assms show ?thesis
    unfolding output_batches_def batcher_inv_def routed_def by blast
qed

lemma route_extractor:
  "route extractor_bucket_upper_bound key =
     (if 0 < key \<and> key < BUCKET_UPPER_BOUND then Some 0 else None)"
  by (simp add: route_def extractor_bucket_upper_bound_def BUCKET_UPPER_BOUND_def)

text \<open>
  Claim C1. With strictly increasing upper bounds: a record whose bucket key is
  \<open>\<le> 0\<close>, or exceeds every configured upper bound, is not routed, leaves the batcher's
  state as it was and appears in no output batch; any other record is routed to the
  bucket with the smallest upper bound \<open>\<ge>\<close> its key; every record of every output batch
  is an input record with a positive key, in the bucket it was routed to. The
  extractor configures the single upper bound \<open>BUCKET_UPPER_BOUND - 1 = 9998\<close>, so an
  example whose key is \<open>\<ge> 9999\<close> is dropped, and such an example carries the null output.
\<close>

theorem bucket_routing:
  assumes sorted: "sorted_wrt (<) (bucket_upper_bound cfg)"
  shows "(key \<le> 0 \<or> (\<forall>ub\<in>set (bucket_upper_bound cfg). ub < key) \<longrightarrow>
            route (bucket_upper_bound cfg) key = None
            \<and> batcher_step cfg (r, key) st = st
            \<and> (\<forall>(b, recs)\<in>set (output_batches cfg records). (r, key) \<notin> set recs))
    \<and> (0 < key \<and> (\<exists>ub\<in>set (bucket_upper_bound cfg). key \<le> ub) \<longrightarrow>
          (\<exists>b. route (bucket_upper_bound cfg) key = Some b
             \<and> b < length (bucket_upper_bound cfg)
             \<and> key \<le> bucket_upper_bound cfg ! b
             \<and> (\<forall>j<length (bucket_upper_bound cfg). key \<le> bucket_upper_bound cfg ! j \<longrightarrow>
                   bucket_upper_bound cfg ! b \<le> bucket_upper_bound cfg ! j)))
    \<and> (\<forall>(b, recs)\<in>set (output_batches cfg records). \<forall>rec\<in>set recs.
          rec \<in> set records \<and> 0 < snd rec \<and> route (bucket_upper_bound cfg) (snd rec) = Some b)
    \<and> route extractor_bucket_upper_bound key =
          (if 0 < key \<and> key < BUCKET_UPPER_BOUND then Some 0 else None)
    \<and> (BUCKET_UPPER_BOUND \<le> reduce_max buckets \<longrightarrow>
          route extractor_bucket_upper_bound
            (fst (ExtractUsingExtractors buckets extracted Preprocess NullLike)) = None
          \<and> snd (ExtractUsingExtractors buckets extracted Preprocess NullLike) = NullLike)"
proof (intro conjI impI)
  let ?ubs = "bucket_upper_bound cfg"
  have in_batch: "rec \<in> set records \<and> 0 < snd rec \<and> route ?ubs (snd rec) = Some b"
    if "(b, recs) \<in> set (output_batches cfg records)" and "rec \<in> set recs" for b recs rec
    using output_batches_routed [OF that] route_Some by blast
  {
    assume drop: "key \<le> 0 \<or> (\<forall>ub\<in>set ?ubs. ub < key)"
    then show none: "route ?ubs key = None"
      by (simp add: route_None)
    then show "batcher_step cfg (r, key) st = st"
      by (simp add: batcher_step_def)
    from none in_batch show "\<forall>(b, recs)\<in>set (output_batches cfg records). (r, key) \<notin> set recs"
      by fastforce
  }
  {
    assume keep: "0 < key \<and> (\<exists>ub\<in>set ?ubs. key \<le> ub)"
    then obtain ub where "0 < key" "ub \<in> set ?ubs" "\<not> ub < key"
      by (auto simp: not_less)
    then have "route ?ubs key \<noteq> None"
      unfolding route_None by (auto simp: not_le)
    then obtain b where b: "route ?ubs key = Some b"
      by blast
    with route_Some [OF b] route_smallest_bound [OF sorted b]
    show "\<exists>b. route ?ubs key = Some b \<and> b < length ?ubs \<and> key \<le> ?ubs ! b
             \<and> (\<forall>j<length ?ubs. key \<le> ?ubs ! j \<longrightarrow> ?ubs ! b \<le> ?ubs ! j)"
      by blast
  }
  show "\<forall>(b, recs)\<in>set (output_batches cfg records). \<forall>rec\<in>set recs.
          rec \<in> set records \<and> 0 < snd rec \<and> route ?ubs (snd rec) = Some b"
    using in_batch by blast
  show "route extractor_bucket_upper_bound key =
          (if 0 < key \<and> key < BUCKET_UPPER_BOUND then Some 0 else None)"
    by (rule route_extractor)
  {
    assume "BUCKET_UPPER_BOUND \<le> reduce_max buckets"
    then show "route extractor_bucket_upper_bound
            (fst (ExtractUsingExtractors buckets extracted Preprocess NullLike)) = None"
      and "snd (ExtractUsingExtractors buckets extracted Preprocess NullLike) = NullLike"
      by (simp_all add: ExtractUsingExtractors_def route_extractor)
  }
qed

theorem bucket_routing_witness:
  "sorted_wrt (<) (bucket_upper_bound \<lparr>bucket_upper_bound = [2, 5], bucket_batch_limit = [2, 1]\<rparr>)
   \<and> output_batches \<lparr>bucket_upper_bound = [2, 5], bucket_batch_limit = [2, 1]\<rparr>
        [(''a'', 1), (''b'', - 3), (''c'', 7), (''d'', 4), (''e'', 2)]
       = [(1, [(''d'', 4)]), (0, [(''a'', 1), (''e'', 2)])]
   \<and> route [2, 5] (- 3) = None \<and> route [2, 5] 7 = None
   \<and> route [2, 5] 4 = Some 1 \<and> route [2, 5] 2 = Some 0
   \<and> route extractor_bucket_upper_bound 9999 = None
   \<and> route extractor_bucket_upper_bound 9998 = Some 0
   \<and> ExtractUsingExtractors [3, 9999, 1] ''x'' (\<lambda>e. e @ ''!'') ''null'' = (9999, ''null'')"
proof -
  let ?cfg = "\<lparr>bucket_upper_bound = [2, 5], bucket_batch_limit = [2, 1]\<rparr>"
  have sorted: "sorted_wrt (<) (bucket_upper_bound ?cfg)"
    by simp
  have run: "output_batches ?cfg [(''a'', 1), (''b'', - 3), (''c'', 7), (''d'', 4), (''e'', 2)]
       = [(1, [(''d'', 4)]), (0, [(''a'', 1), (''e'', 2)])]"
    by (simp add: output_batches_def batcher_run_def batcher_init_def batcher_step_def route_def)
  note low = bucket_routing [OF sorted, where key = "- 3" and r = "()" and st = "([], [])"
      and records = "[]", THEN conjunct1]
  note high = bucket_routing [OF sorted, where key = 7 and r = "()" and st = "([], [])"
      and records = "[]", THEN conjunct1]
  note ext = bucket_routing [OF sorted, THEN conjunct2, THEN conjunct2, THEN conjunct2, THEN conjunct1]
  have "route [2, 5] (- 3) = None" "route [2, 5] 7 = None"
    using low high by simp_all
  moreover have "route extractor_bucket_upper_bound 9999 = None"
      "route extractor_bucket_upper_bound 9998 = Some 0"
    using ext [of 9999] ext [of 9998] by (simp_all add: BUCKET_UPPER_BOUND_def)
  moreover have "route [2, 5] 4 = Some 1" "route [2, 5] 2 = Some 0"
    by (simp_all add: route_def)
  moreover have "ExtractUsingExtractors [3, 9999, 1] ''x'' (\<lambda>e. e @ ''!'') ''null'' = (9999, ''null'')"
    by (simp add: ExtractUsingExtractors_def BUCKET_UPPER_BOUND_def)
  ultimately show ?thesis
    using sorted run by simp
qed

subsection \<open>Dynamic padding\<close>

lemma fold_max_ge_start: "a \<le> fold (\<lambda>x n. max (f x) n) xs (a :: nat)"
proof (induction xs arbitrary: a)
  case Nil
  show ?case by simp
next
  case (Cons x xs)
  have "a \<le> max (f x) a" by simp
  also have "\<dots> \<le> fold (\<lambda>x n. max (f x) n) xs (max (f x) a)" by (rule Cons.IH)
  finally show ?case by simp
qed

lemma fold_max_ge_elem: "x \<in> set xs \<Longrightarrow> f x \<le> fold (\<lambda>x n. max (f x) n) xs (a :: nat)"
proof (induction xs arbitrary: a)
  case Nil
  then show ?case by simp
next
  case (Cons y xs)
  show ?case
  proof (cases "x = y")
    case True
    have "f y \<le> max (f y) a" by simp
    also have "\<dots> \<le> fold (\<lambda>x n. max (f x) n) xs (max (f y) a)" by (rule fold_max_ge_start)
    finally show ?thesis using True by simp
  next
    case False
    with Cons.prems have "x \<in> set xs" by simp
    then show ?thesis using Cons.IH by simp
  qed
qed

lemma fold_max_attained:
  "fold (\<lambda>x n. max (f x) n) xs (a :: nat) = a \<or> (\<exists>x\<in>set xs. fold (\<lambda>x n. max (f x) n) xs a = f x)"
proof (induction xs arbitrary: a)
  case Nil
  show ?case by simp
next
  case (Cons y xs)
  from Cons.IH [of "max (f y) a"] show ?case
    by (auto simp: max_def split: if_splits)
qed

lemma max_extent_ge: "inst \<in> set instances \<Longrightarrow> length (inst ! k) \<le> max_extent k instances"
  unfolding max_extent_def by (rule fold_max_ge_elem)

lemma max_extent_attained:
  assumes "instances \<noteq> []"
  shows "\<exists>inst\<in>set instances. length (inst ! k) = max_extent k instances"
proof -
  have "max_extent k instances = 0
      \<or> (\<exists>inst\<in>set instances. max_extent k instances = length (inst ! k))"
    unfolding max_extent_def by (rule fold_max_attained)
  then consider "max_extent k instances = 0"
    | "\<exists>inst\<in>set instances. max_extent k instances = length (inst ! k)"
    by (rule disjE)
  then show ?thesis
  proof cases
    case 1
    from assms obtain inst where inst: "inst \<in> set instances"
      by (cases instances) auto
    with max_extent_ge [OF inst, of k] 1 show ?thesis
      by auto
  next
    case 2
    then show ?thesis by auto
  qed
qed

lemma flush_nth:
  assumes "j < length instances" and "k < length (instances ! j)"
  shows "flush consts instances ! j ! k =
      pad_to (max_extent k instances) (consts ! k) (instances ! j ! k)"
  using assms by (simp add: flush_def)

text \<open>
  Claim C2. In a flushed batch, for every instance and every field with a dynamic
  padding dimension, let \<open>n\<close> be the maximum true extent of that field among the
  batch's instances (no instance exceeds it and one attains it). The flushed field has
  extent exactly \<open>n\<close>, its entries below the instance's true extent are unchanged, and
  its entries from the true extent up to \<open>n\<close> are the configured padding constant. The
  flush keeps the number of instances and of fields.
\<close>

theorem dynamic_padding:
  assumes j: "j < length instances" and k: "k < length (instances ! j)"
  shows "length (flush consts instances) = length instances
    \<and> length (flush consts instances ! j) = length (instances ! j)
    \<and> length (flush consts instances ! j ! k) = max_extent k instances
    \<and> (\<forall>i<length (instances ! j ! k). flush consts instances ! j ! k ! i = instances ! j ! k ! i)
    \<and> (\<forall>i. length (instances ! j ! k) \<le> i \<and> i < max_extent k instances \<longrightarrow>
          flush consts instances ! j ! k ! i = consts ! k)
    \<and> (\<forall>inst\<in>set instances. length (inst ! k) \<le> max_extent k instances)
    \<and> (\<exists>inst\<in>set instances. length (inst ! k) = max_extent k instances)"
proof -
  from j have le: "length (instances ! j ! k) \<le> max_extent k instances"
    by (intro max_extent_ge nth_mem)
  from j have ne: "instances \<noteq> []"
    by auto
  have padded: "flush consts instances ! j ! k =
      pad_to (max_extent k instances) (consts ! k) (instances ! j ! k)"
    using j k by (rule flush_nth)
  have "length (flush consts instances) = length instances"
    by (simp add: flush_def)
  moreover have "length (flush consts instances ! j) = length (instances ! j)"
    using j by (simp add: flush_def)
  moreover have "length (flush consts instances ! j ! k) = max_extent k instances"
    unfolding padded using le by (simp add: pad_to_def)
  moreover have "flush consts instances ! j ! k ! i = instances ! j ! k ! i"
    if "i < length (instances ! j ! k)" for i
    unfolding padded using that by (simp add: pad_to_def nth_append)
  moreover have "flush consts instances ! j ! k ! i = consts ! k"
    if "length (instances ! j ! k) \<le> i \<and> i < max_extent k instances" for i
  proof -
    from that have "i - length (instances ! j ! k) < max_extent k instances - length (instances ! j ! k)"
      by linarith
    with that show ?thesis
      unfolding padded by (simp add: pad_to_def nth_append)
  qed
  moreover have "\<forall>inst\<in>set instances. length (inst ! k) \<le> max_extent k instances"
    by (simp add: max_extent_ge)
  moreover have "\<exists>inst\<in>set instances. length (inst ! k) = max_extent k instances"
    using ne by (rule max_extent_attained)
  ultimately show ?thesis
    by blast
qed

theorem dynamic_padding_witness:
  "(0 :: nat) < length [[[1, 1 :: int], [7]], [[3, 3, 3], [8]]]
   \<and> (0 :: nat) < length ([[[1, 1 :: int], [7]], [[3, 3, 3], [8]]] ! 0)
   \<and> flush [0, 0] [[[1, 1 :: int], [7]], [[3, 3, 3], [8]]] = [[[1, 1, 0], [7]], [[3, 3, 3], [8]]]
   \<and> max_extent 0 [[[1, 1 :: int], [7]], [[3, 3, 3], [8]]] = 3
   \<and> length (flush [0, 0] [[[1, 1 :: int], [7]], [[3, 3, 3], [8]]] ! 0 ! 0) = 3
   \<and> flush [0, 0] [[[1, 1 :: int], [7]], [[3, 3, 3], [8]]] ! 0 ! 0 ! 2 = 0"
proof -
  let ?insts = "[[[1, 1 :: int], [7]], [[3, 3, 3], [8]]]"
  have j: "(0 :: nat) < length ?insts" and k: "(0 :: nat) < length (?insts ! 0)"
    by simp_all
  have n: "max_extent 0 ?insts = 3"
    by (simp add: max_extent_def)
  have run: "flush [0, 0] ?insts = [[[1, 1, 0], [7]], [[3, 3, 3], [8]]]"
    by (simp add: flush_def max_extent_def pad_to_def upt_rec)
  from dynamic_padding [OF j k, of "[0, 0]"] n
  have "length (flush [0, 0] ?insts ! 0 ! 0) = 3" "flush [0, 0] ?insts ! 0 ! 0 ! 2 = 0"
    by simp_all
  with n run show ?thesis
    by simp
qed

end
